theory Spec2Isabelle
  imports Complex_Main "HOL-Library.Log_Nat"
begin

section \<open>Common Go notions\<close>

text \<open>
  Instants (\<^verbatim>\<open>time.Time\<close>) and durations (\<^verbatim>\<open>time.Duration\<close>) are counted in
  nanoseconds and modelled as \<^typ>\<open>int\<close>; the zero \<^verbatim>\<open>time.Time\<close> is instant 0.
  Go's \<^verbatim>\<open>int\<close> is 64 bits wide, as on amd64 and arm64. The circuit breaker's
  \<^verbatim>\<open>uint\<close> counter is modelled as \<^typ>\<open>nat\<close> and its time differences as \<^typ>\<open>int\<close>: there
  the model covers runs with fewer than \<open>2\<^sup>6\<^sup>4\<close> failures and time differences inside
  the \<^verbatim>\<open>Duration\<close> range. Every call of
  \<^verbatim>\<open>time.Now()\<close> or \<^verbatim>\<open>time.Since\<close> in the source becomes an explicit argument that
  carries the clock reading.
\<close>

type_synonym instant = int
type_synonym duration = int

text \<open>Go's \<^verbatim>\<open>error\<close> values that occur in the modelled code.\<close>

datatype error =
    ErrorString string    \<comment> \<open>\<^verbatim>\<open>errors.New\<close>, \<^verbatim>\<open>fmt.Errorf\<close>\<close>
  | ContextCanceled       \<comment> \<open>\<^verbatim>\<open>context.Canceled\<close>\<close>
  | DeadlineExceeded      \<comment> \<open>\<^verbatim>\<open>context.DeadlineExceeded\<close>\<close>

text \<open>Run-time panics raised by the modelled code.\<close>

datatype panic =
    DivideByZero          \<comment> \<open>integer divide by zero\<close>
  | SendOnClosedChannel
  | CloseOfClosedChannel
  | NilDereference
  | MakeSliceLenOutOfRange
  | HandlerPanic string   \<comment> \<open>a panic raised inside a job handler\<close>

text \<open>
  The token bucket is modelled with Go's 64-bit arithmetic: \<open>wrap64\<close> is the value an
  \<^verbatim>\<open>int64\<close> (and \<^verbatim>\<open>int\<close>) holds after an operation whose exact result is \<open>x\<close>.
\<close>

definition wrap64 :: "int \<Rightarrow> int" where
  "wrap64 x = (x + 2 ^ 63) mod 2 ^ 64 - 2 ^ 63"

text \<open>Go's integer quotient truncates towards zero; the divisor is checked by the caller.\<close>

definition quo :: "int \<Rightarrow> int \<Rightarrow> int" where
  "quo a b = (if (a < 0) = (b < 0) then \<bar>a\<bar> div \<bar>b\<bar> else - (\<bar>a\<bar> div \<bar>b\<bar>))"

text \<open>
  \<^verbatim>\<open>t.Sub(u)\<close> on two readings of the monotonic clock: the difference, or the largest
  or smallest \<^verbatim>\<open>Duration\<close> when the difference does not fit.
\<close>

definition Sub :: "instant \<Rightarrow> instant \<Rightarrow> duration" where
  "Sub t u = max (- (2 ^ 63)) (min (2 ^ 63 - 1) (t - u))"

section \<open>Token bucket: \<^verbatim>\<open>RateLimiter\<close> (pkg/resilience/circuit_breaker.go)\<close>

record RateLimiter =
  tokens :: int
  maxTokens :: int
  refillRate :: duration
  lastRefillTime :: instant

text \<open>\<^verbatim>\<open>NewRateLimiter(maxTokens, refillRate)\<close>, with the clock reading \<open>now\<close>.\<close>

definition NewRateLimiter :: "instant \<Rightarrow> int \<Rightarrow> duration \<Rightarrow> RateLimiter" where
  "NewRateLimiter now m r =
     \<lparr>tokens = m, maxTokens = m, refillRate = r, lastRefillTime = now\<rparr>"

text \<open>
  The refill part of \<^verbatim>\<open>Allow\<close> (lines 203-213): \<open>n\<close> is \<^verbatim>\<open>tokensToAdd\<close>. The sum
  \<^verbatim>\<open>rl.tokens += tokensToAdd\<close> wraps at 64 bits before it is compared with the ceiling.
\<close>

definition refill :: "instant \<Rightarrow> RateLimiter \<Rightarrow> RateLimiter" where
  "refill now rl =
     (let elapsed = Sub now (lastRefillTime rl);
          n = wrap64 (quo elapsed (refillRate rl))
      in if n > 0
         then (let t = wrap64 (tokens rl + n);
                   t' = (if t > maxTokens rl then maxTokens rl else t)
               in rl\<lparr>tokens := t', lastRefillTime := now\<rparr>)
         else rl)"

text \<open>
  The refill as the specification words it, for comparison with \<open>refill\<close>: the count
  grows by \<open>n = \<lfloor>(now - last) / I\<rfloor>\<close> up to the ceiling and the last refill instant
  advances by \<open>n * I\<close>.
\<close>

definition refill_spec :: "instant \<Rightarrow> RateLimiter \<Rightarrow> RateLimiter" where
  "refill_spec now rl =
     (let n = (now - lastRefillTime rl) div refillRate rl
      in rl\<lparr>tokens := min (maxTokens rl) (tokens rl + n),
            lastRefillTime := lastRefillTime rl + n * refillRate rl\<rparr>)"

text \<open>
  The admission part of \<^verbatim>\<open>Allow\<close> (lines 216-221). The decrement of a positive count
  cannot wrap.
\<close>

definition take_token :: "RateLimiter \<Rightarrow> bool \<times> RateLimiter" where
  "take_token rl =
     (if tokens rl > 0 then (True, rl\<lparr>tokens := tokens rl - 1\<rparr>) else (False, rl))"

text \<open>
  \<^verbatim>\<open>Allow()\<close> at clock reading \<open>now\<close>. The division \<^verbatim>\<open>elapsed / rl.refillRate\<close>
  panics when the refill interval is 0.
\<close>

definition Allow :: "instant \<Rightarrow> RateLimiter \<Rightarrow> panic + bool \<times> RateLimiter" where
  "Allow now rl =
     (if refillRate rl = 0 then Inl DivideByZero else Inr (take_token (refill now rl)))"

text \<open>
  A run of \<^verbatim>\<open>Allow\<close> calls at the given clock readings: the answers and the limiter
  after each call, in order.
\<close>

fun Allow_run :: "instant list \<Rightarrow> RateLimiter \<Rightarrow> panic + (bool \<times> RateLimiter) list" where
  "Allow_run [] rl = Inr []"
| "Allow_run (t # ts) rl =
     (case Allow t rl of
        Inl p \<Rightarrow> Inl p
      | Inr (ok, rl') \<Rightarrow>
          (case Allow_run ts rl' of
             Inl p \<Rightarrow> Inl p
           | Inr rest \<Rightarrow> Inr ((ok, rl') # rest)))"

text \<open>
  The bucket invariant for capacity \<open>m\<close>, refill interval \<open>r\<close> and clock readings between
  \<open>lo\<close> and \<open>hi\<close>: the count lies between 0 and \<open>m\<close>, the two configuration fields
  are as constructed, and the last refill instant lies between \<open>lo\<close> and \<open>hi\<close> too.
\<close>

definition bucket_ok :: "int \<Rightarrow> duration \<Rightarrow> instant \<Rightarrow> instant \<Rightarrow> RateLimiter \<Rightarrow> bool" where
  "bucket_ok m r lo hi rl \<longleftrightarrow>
     0 \<le> tokens rl \<and> tokens rl \<le> m \<and> maxTokens rl = m \<and> refillRate rl = r \<and>
     lo \<le> lastRefillTime rl \<and> lastRefillTime rl \<le> hi"

section \<open>Circuit breaker (pkg/resilience/circuit_breaker.go)\<close>

datatype CircuitState = StateClosed | StateOpen | StateHalfOpen

record CircuitBreaker =
  maxFailures :: nat
  resetTimeout :: duration
  state :: CircuitState
  failures :: nat
  lastFailTime :: instant

definition NewCircuitBreaker :: "nat \<Rightarrow> duration \<Rightarrow> CircuitBreaker" where
  "NewCircuitBreaker mf rt =
     \<lparr>maxFailures = mf, resetTimeout = rt, state = StateClosed, failures = 0,
      lastFailTime = 0\<rparr>"

text \<open>
  An operation \<^verbatim>\<open>fn func() error\<close> is a closure over the caller's variables. It is
  modelled as a function on a world \<open>'w\<close> that it may change, returning \<open>None\<close> for
  \<^verbatim>\<open>nil\<close>. An operation that is not invoked leaves the world as it was.
\<close>

type_synonym 'w operation = "'w \<Rightarrow> error option \<times> 'w"

text \<open>
  \<^verbatim>\<open>Execute(fn)\<close>, one call run without interleaving. \<open>t_since\<close> is the clock reading
  of \<^verbatim>\<open>time.Since(cb.lastFailTime)\<close> (line 46) and \<open>t_now\<close> the one of
  \<^verbatim>\<open>time.Now()\<close> after a failure (line 62).
\<close>

definition Execute ::
  "instant \<Rightarrow> instant \<Rightarrow> 'w operation \<Rightarrow> CircuitBreaker \<Rightarrow> 'w
     \<Rightarrow> error option \<times> CircuitBreaker \<times> 'w" where
  "Execute t_since t_now fn cb w =
     (if state cb = StateOpen \<and> \<not> (t_since - lastFailTime cb > resetTimeout cb)
      then (Some (ErrorString ''circuit breaker is open''), cb, w)
      else
        (let cb1 = (if state cb = StateOpen then cb\<lparr>state := StateHalfOpen\<rparr> else cb)
         in case fn w of
              (Some e, w') \<Rightarrow>
                (let cb2 = cb1\<lparr>failures := failures cb1 + 1, lastFailTime := t_now\<rparr>;
                     cb3 = (if failures cb2 \<ge> maxFailures cb2
                            then cb2\<lparr>state := StateOpen\<rparr> else cb2)
                 in (Some e, cb3, w'))
            | (None, w') \<Rightarrow>
                (let cb2 = (if state cb1 = StateHalfOpen
                            then cb1\<lparr>state := StateClosed\<rparr> else cb1)
                 in (None, cb2\<lparr>failures := 0\<rparr>, w'))))"

definition GetState :: "CircuitBreaker \<Rightarrow> CircuitState" where
  "GetState cb = state cb"

definition Reset :: "CircuitBreaker \<Rightarrow> CircuitBreaker" where
  "Reset cb = cb\<lparr>state := StateClosed, failures := 0\<rparr>"

text \<open>
  A run of \<^verbatim>\<open>Execute\<close> calls, each with its two clock readings and its operation;
  the results in order, the breaker and the world at the end.
\<close>

fun Execute_run ::
  "(instant \<times> instant \<times> 'w operation) list \<Rightarrow> CircuitBreaker \<Rightarrow> 'w
     \<Rightarrow> error option list \<times> CircuitBreaker \<times> 'w" where
  "Execute_run [] cb w = ([], cb, w)"
| "Execute_run ((t1, t2, fn) # cs) cb w =
     (case Execute t1 t2 fn cb w of
        (r, cb', w') \<Rightarrow>
          (case Execute_run cs cb' w' of (rs, cb'', w'') \<Rightarrow> (r # rs, cb'', w'')))"

text \<open>
  Two operations that count their invocations in the world: one always fails with the
  given error, one always succeeds.
\<close>

definition failing :: "error \<Rightarrow> nat operation" where
  "failing e n = (Some e, Suc n)"

definition succeeding :: "nat operation" where
  "succeeding n = (None, Suc n)"

text \<open>An operation that fails on its first \<open>k\<close> invocations and succeeds afterwards.\<close>

definition fails_until :: "nat \<Rightarrow> error \<Rightarrow> nat operation" where
  "fails_until k e n = (if n < k then (Some e, Suc n) else (None, Suc n))"

text \<open>An operation that fails whenever it is invoked.\<close>

definition always_fails :: "'w operation \<Rightarrow> bool" where
  "always_fails fn \<longleftrightarrow> (\<forall>w. fst (fn w) \<noteq> None)"

section \<open>Retry engine (pkg/resilience/circuit_breaker.go)\<close>

record RetryConfig =
  MaxAttempts :: int
  InitialDelay :: duration
  MaxDelay :: duration
  BackoffMultiplier :: rat

definition DefaultRetryConfig :: RetryConfig where
  "DefaultRetryConfig =
     \<lparr>MaxAttempts = 3, InitialDelay = 100 * 1000000, MaxDelay = 5 * 1000000000,
      BackoffMultiplier = 2\<rparr>"

text \<open>
  The \<^verbatim>\<open>context.Context\<close> as \<^verbatim>\<open>Retry\<close> observes it. \<open>errAfter ctx k\<close> is the value
  of \<^verbatim>\<open>ctx.Err()\<close> read after attempt \<open>k\<close> has failed (line 123); \<open>doneDuring ctx k\<close>
  is \<open>Some e\<close> when the \<^verbatim>\<open>select\<close> after attempt \<open>k\<close> takes the \<^verbatim>\<open>ctx.Done()\<close>
  branch and \<^verbatim>\<open>ctx.Err()\<close> is then \<open>e\<close>, and \<open>None\<close> when the timer branch is taken.
\<close>

record Context =
  errAfter :: "int \<Rightarrow> error option"
  doneDuring :: "int \<Rightarrow> error option"

text \<open>A context whose cancel signal never fires.\<close>

definition Background :: Context where
  "Background = \<lparr>errAfter = (\<lambda>_. None), doneDuring = (\<lambda>_. None)\<rparr>"

text \<open>
  What \<^verbatim>\<open>Retry\<close> does, in order: invocations of the operation and completed sleeps.
  A sleep carries the value of \<^verbatim>\<open>delay\<close>; it is \<open>None\<close> when Go leaves that value to
  the implementation (see \<open>f64_to_int\<close>).
\<close>

datatype event = Attempt "error option" | Sleep "duration option"

text \<open>
  \<^verbatim>\<open>float64\<close> arithmetic on finite values, as rational numbers. \<open>f64_round x\<close> is the
  \<^verbatim>\<open>float64\<close> nearest to \<open>x\<close> (ties to the even significand) for \<open>x = 0\<close> or
  \<open>\<bar>x\<bar> \<ge> 1\<close>: with \<open>L\<close> the bit length of the integer part, the significand has 53
  bits, so the spacing of the values around \<open>x\<close> is \<open>2\<^sup>L\<^sup>-\<^sup>5\<^sup>3\<close>.
\<close>

definition round_half_even :: "rat \<Rightarrow> int" where
  "round_half_even x =
     (let n = \<lfloor>x\<rfloor>; r = x - of_int n
      in if r < 1 / 2 then n else if 1 / 2 < r then n + 1 else if even n then n else n + 1)"

definition f64_round :: "rat \<Rightarrow> rat" where
  "f64_round x =
     (let L = bitlen \<lfloor>\<bar>x\<bar>\<rfloor>
      in if L \<le> 53
         then of_int (round_half_even (x * 2 ^ nat (53 - L))) / 2 ^ nat (53 - L)
         else of_int (round_half_even (x / 2 ^ nat (L - 53))) * 2 ^ nat (L - 53))"

text \<open>
  The conversion of a \<^verbatim>\<open>float64\<close> to \<^verbatim>\<open>int64\<close> drops the fraction (towards zero);
  for a value outside the \<^verbatim>\<open>int64\<close> range the result is implementation-dependent
  (\<open>None\<close>).
\<close>

definition f64_to_int :: "rat \<Rightarrow> int option" where
  "f64_to_int y =
     (if - (2 ^ 63) \<le> y \<and> y < 2 ^ 63 then Some (if y < 0 then - \<lfloor>- y\<rfloor> else \<lfloor>y\<rfloor>) else None)"

text \<open>
  \<^verbatim>\<open>time.Duration(float64(delay) * config.BackoffMultiplier)\<close>. The multiplier is the
  rational value of the (finite) \<^verbatim>\<open>float64\<close> in the configuration. The product \<open>p\<close> of
  the two \<^verbatim>\<open>float64\<close> values is rounded to a \<^verbatim>\<open>float64\<close> and then converted. A product
  of magnitude below 1 rounds to a value of magnitude at most 1 and reaches 1 exactly
  from \<open>1 - 2\<^sup>-\<^sup>5\<^sup>4\<close> on, the midpoint between 1 and the \<^verbatim>\<open>float64\<close> before it.
\<close>

definition scale :: "duration \<Rightarrow> rat \<Rightarrow> duration option" where
  "scale d b =
     (let p = f64_round (of_int d) * b;
          y = (if \<bar>p\<bar> < 1 then (if 1 - 1 / 2 ^ 54 \<le> \<bar>p\<bar> then sgn p else 0)
               else f64_round p)
      in f64_to_int y)"

text \<open>
  Lines 135-138: the delay for the next wait. A delay that Go leaves to the
  implementation stays so.
\<close>

definition next_delay :: "RetryConfig \<Rightarrow> duration option \<Rightarrow> duration option" where
  "next_delay config delay =
     (case delay of
        None \<Rightarrow> None
      | Some d0 \<Rightarrow>
          (case scale d0 (BackoffMultiplier config) of
             None \<Rightarrow> None
           | Some d \<Rightarrow> Some (if d > MaxDelay config then MaxDelay config else d)))"

text \<open>
  The \<^verbatim>\<open>for\<close> loop of \<^verbatim>\<open>Retry\<close> from the loop variables \<open>attempt\<close>, \<open>delay\<close> and
  \<open>err\<close> on. The result is the returned error, the world, and the events in order.
\<close>

function retry_loop ::
  "Context \<Rightarrow> RetryConfig \<Rightarrow> 'w operation \<Rightarrow> int \<Rightarrow> duration option \<Rightarrow> error option \<Rightarrow> 'w
     \<Rightarrow> error option \<times> 'w \<times> event list" where
  "retry_loop ctx config fn attempt delay err w =
     (if attempt \<le> MaxAttempts config then
        (case fn w of
           (None, w') \<Rightarrow> (None, w', [Attempt None])
         | (Some e, w') \<Rightarrow>
             (case errAfter ctx attempt of
                Some c \<Rightarrow> (Some c, w', [Attempt (Some e)])
              | None \<Rightarrow>
                  if attempt = MaxAttempts config then (Some e, w', [Attempt (Some e)])
                  else
                    (case doneDuring ctx attempt of
                       Some c \<Rightarrow> (Some c, w', [Attempt (Some e)])
                     | None \<Rightarrow>
                         (case retry_loop ctx config fn (attempt + 1)
                                 (next_delay config delay) (Some e) w' of
                            (r, w'', evs) \<Rightarrow>
                              (r, w'', Attempt (Some e) # Sleep delay # evs)))))
      else (err, w, []))"
  by pat_completeness auto
termination
  by (relation "measure (\<lambda>(ctx, config, fn, attempt, delay, err, w).
                   nat (MaxAttempts config + 1 - attempt))") auto

definition Retry ::
  "Context \<Rightarrow> RetryConfig \<Rightarrow> 'w operation \<Rightarrow> 'w \<Rightarrow> error option \<times> 'w \<times> event list" where
  "Retry ctx config fn w = retry_loop ctx config fn 1 (Some (InitialDelay config)) None w"

text \<open>The results of the invocations and the completed sleeps recorded in a run.\<close>

fun attempts :: "event list \<Rightarrow> error option list" where
  "attempts [] = []"
| "attempts (Attempt r # evs) = r # attempts evs"
| "attempts (Sleep d # evs) = attempts evs"



text \<open>
  The world after \<open>n\<close> invocations of an operation, and the results of these \<open>n\<close>
  invocations in order.
\<close>

fun invoked :: "'w operation \<Rightarrow> nat \<Rightarrow> 'w \<Rightarrow> 'w" where
  "invoked fn 0 w = w"
| "invoked fn (Suc n) w = invoked fn n (snd (fn w))"

fun results :: "'w operation \<Rightarrow> nat \<Rightarrow> 'w \<Rightarrow> error option list" where
  "results fn 0 w = []"
| "results fn (Suc n) w = fst (fn w) # results fn n (snd (fn w))"



section \<open>Worker pool (internal/worker/worker.go)\<close>

text \<open>
  A value of type \<^verbatim>\<open>interface{}\<close>, as far as the handlers look into it: a string, a
  \<^verbatim>\<open>map[string]interface{}\<close> (its entries as an association list), or something else.
\<close>

datatype anyval = VNil | VString string | VInt int | VMap "(string \<times> anyval) list"

record Job =
  ID :: string
  Type :: string
  Payload :: anyval
  CreatedAt :: instant
  Status :: string
  Error :: "error option"

text \<open>
  \<^verbatim>\<open>Handle(ctx, job)\<close> receives a pointer to the job: it returns an error or
  \<^verbatim>\<open>nil\<close> and leaves the job as given in the outcome, or it panics.
\<close>

datatype handler_outcome = Returns "error option" Job | Panics panic

type_synonym JobHandler = "Job \<Rightarrow> handler_outcome"

text \<open>
  A buffered channel: its buffer, its capacity and whether it has been closed. A channel
  that only ever gets closed (\<^verbatim>\<open>quit\<close>) is the flag alone.
\<close>

record 'a chan =
  buf :: "'a list"
  capacity :: nat
  is_closed :: bool

record Worker =
  id_w :: int
  quit_w :: bool

record WorkerPool =
  workers :: "Worker option list"
  jobQueue :: "Job chan"
  handlers :: "string \<rightharpoonup> JobHandler"
  quit :: bool
  wg :: nat
  isRunning :: bool

text \<open>\<^verbatim>\<open>make([]*Worker, workerCount)\<close> panics on a negative length; the entries are nil.\<close>

definition NewWorkerPool :: "int \<Rightarrow> panic + WorkerPool" where
  "NewWorkerPool workerCount =
     (if workerCount < 0 then Inl MakeSliceLenOutOfRange
      else Inr \<lparr>workers = replicate (nat workerCount) None,
                jobQueue = \<lparr>buf = [], capacity = 100, is_closed = False\<rparr>,
                handlers = Map.empty,
                quit = False,
                wg = 0,
                isRunning = False\<rparr>)"

definition RegisterHandler :: "string \<Rightarrow> JobHandler \<Rightarrow> WorkerPool \<Rightarrow> WorkerPool" where
  "RegisterHandler jobType handler wp = wp\<lparr>handlers := (handlers wp)(jobType \<mapsto> handler)\<rparr>"

text \<open>
  \<^verbatim>\<open>Start()\<close>: every slot gets a fresh worker with an open \<^verbatim>\<open>quit\<close> channel, and
  \<^verbatim>\<open>wg\<close> counts one goroutine for each.
\<close>

definition Start :: "WorkerPool \<Rightarrow> WorkerPool" where
  "Start wp =
     (if isRunning wp then wp
      else wp\<lparr>workers := map (\<lambda>i. Some \<lparr>id_w = int i + 1, quit_w = False\<rparr>)
                              [0 ..< length (workers wp)],
              wg := wg wp + length (workers wp),
              isRunning := True\<rparr>)"

text \<open>\<^verbatim>\<open>worker.stop()\<close> closes the worker's \<^verbatim>\<open>quit\<close> channel.\<close>

definition stop_w :: "Worker option \<Rightarrow> panic + Worker option" where
  "stop_w w =
     (case w of
        None \<Rightarrow> Inl NilDereference
      | Some x \<Rightarrow> if quit_w x then Inl CloseOfClosedChannel else Inr (Some (x\<lparr>quit_w := True\<rparr>)))"

fun stop_all :: "Worker option list \<Rightarrow> panic + Worker option list" where
  "stop_all [] = Inr []"
| "stop_all (w # ws) =
     (case stop_w w of
        Inl p \<Rightarrow> Inl p
      | Inr w' \<Rightarrow> (case stop_all ws of Inl p \<Rightarrow> Inl p | Inr ws' \<Rightarrow> Inr (w' # ws')))"

text \<open>
  \<^verbatim>\<open>Stop()\<close>: closes \<^verbatim>\<open>wp.quit\<close>, stops every worker, waits for the worker goroutines
  (\<^verbatim>\<open>wg\<close> back to 0), closes the job queue and clears the flag. Closing a closed channel
  panics.
\<close>

definition Stop :: "WorkerPool \<Rightarrow> panic + WorkerPool" where
  "Stop wp =
     (if \<not> isRunning wp then Inr wp
      else if quit wp then Inl CloseOfClosedChannel
      else
        (case stop_all (workers wp) of
           Inl p \<Rightarrow> Inl p
         | Inr ws \<Rightarrow>
             if is_closed (jobQueue wp) then Inl CloseOfClosedChannel
             else Inr (wp\<lparr>workers := ws,
                          jobQueue := (jobQueue wp)\<lparr>is_closed := True\<rparr>,
                          quit := True,
                          wg := 0,
                          isRunning := False\<rparr>)))"

text \<open>
  \<^verbatim>\<open>Submit(job)\<close>: the \<^verbatim>\<open>select\<close> with a \<^verbatim>\<open>default\<close> branch sends when the buffer has
  room and takes \<^verbatim>\<open>default\<close> when it is full; a send on a closed channel panics.
\<close>

definition Submit :: "Job \<Rightarrow> WorkerPool \<Rightarrow> panic + error option \<times> WorkerPool" where
  "Submit job wp =
     (if \<not> isRunning wp then Inr (Some (ErrorString ''worker pool is not running''), wp)
      else
        (let q = jobQueue wp
         in if is_closed q then Inl SendOnClosedChannel
            else if length (buf q) < capacity q
            then Inr (None, wp\<lparr>jobQueue := q\<lparr>buf := buf q @ [job]\<rparr>\<rparr>)
            else Inr (Some (ErrorString ''job queue is full''), wp)))"

text \<open>
  \<^verbatim>\<open>executeJob(job)\<close>: there is no \<^verbatim>\<open>recover\<close> in it, so a panic of the handler leaves
  the function as a panic.
\<close>

definition executeJob :: "(string \<rightharpoonup> JobHandler) \<Rightarrow> Job \<Rightarrow> panic + Job" where
  "executeJob hs job =
     (case hs (Type job) of
        None \<Rightarrow>
          Inr (job\<lparr>Status := ''failed'',
                   Error := Some (ErrorString (''no handler for job type: '' @ Type job))\<rparr>)
      | Some handler \<Rightarrow>
          (case handler job of
             Panics p \<Rightarrow> Inl p
           | Returns (Some err) job' \<Rightarrow> Inr (job'\<lparr>Status := ''failed'', Error := Some err\<rparr>)
           | Returns None job' \<Rightarrow> Inr (job'\<lparr>Status := ''completed''\<rparr>)))"

text \<open>
  The loop of \<^verbatim>\<open>Worker.start()\<close> over the jobs it receives, in order, until \<^verbatim>\<open>quit\<close>
  is selected at the end of the list: the jobs it has finished, and the panic that ended
  the goroutine, if any.
\<close>

fun start_w :: "(string \<rightharpoonup> JobHandler) \<Rightarrow> Job list \<Rightarrow> Job list \<times> panic option" where
  "start_w hs [] = ([], None)"
| "start_w hs (job # jobs) =
     (case executeJob hs job of
        Inl p \<Rightarrow> ([], Some p)
      | Inr job' \<Rightarrow> (case start_w hs jobs of (done, r) \<Rightarrow> (job' # done, r)))"

text \<open>
  The unchecked type assertion \<^verbatim>\<open>v.(string)\<close> on an \<^verbatim>\<open>interface{}\<close> value read from a
  map, where a missing key reads as nil: it panics unless the value is a string.
\<close>

definition assert_string :: "anyval option \<Rightarrow> panic + string" where
  "assert_string v =
     (case v of
        Some (VString s) \<Rightarrow> Inr s
      | Some (VInt i) \<Rightarrow>
          Inl (HandlerPanic ''interface conversion: interface {} is int, not string'')
      | Some (VMap m) \<Rightarrow>
          Inl (HandlerPanic
                 ''interface conversion: interface {} is map[string]interface {}, not string'')
      | _ \<Rightarrow> Inl (HandlerPanic ''interface conversion: interface {} is nil, not string''))"

text \<open>
  \<^verbatim>\<open>EmailJobHandler.Handle\<close>: a payload that is not a map is an error; the entries
  \<^verbatim>\<open>"to"\<close>, \<^verbatim>\<open>"subject"\<close> and \<^verbatim>\<open>"body"\<close> are read with unchecked type assertions, in
  this order.
\<close>

definition EmailJobHandler :: JobHandler where
  "EmailJobHandler job =
     (case Payload job of
        VMap payload \<Rightarrow>
          (case assert_string (map_of payload ''to'') of
             Inl p \<Rightarrow> Panics p
           | Inr to \<Rightarrow>
               (case assert_string (map_of payload ''subject'') of
                  Inl p \<Rightarrow> Panics p
                | Inr subject \<Rightarrow>
                    (case assert_string (map_of payload ''body'') of
                       Inl p \<Rightarrow> Panics p
                     | Inr body \<Rightarrow> Returns None job)))
      | _ \<Rightarrow> Returns (Some (ErrorString ''invalid payload format'')) job)"

definition UserCleanupJobHandler :: JobHandler where
  "UserCleanupJobHandler job = Returns None job"

text \<open>The handler table of the documented set-up, as far as it is modelled.\<close>

definition email_handlers :: "string \<rightharpoonup> JobHandler" where
  "email_handlers =
     [''email'' \<mapsto> EmailJobHandler, ''user_cleanup'' \<mapsto> UserCleanupJobHandler]"

section \<open>Properties of the token bucket\<close>

text \<open>
  Values inside the \<^verbatim>\<open>int64\<close> range are not changed by wrapping; a time difference is
  always inside it; and the truncating quotient by a positive interval stays inside it.
\<close>

lemma wrap64_id: "- (2 ^ 63) \<le> x \<Longrightarrow> x < 2 ^ 63 \<Longrightarrow> wrap64 x = x"
proof -
  assume a: "- (2 ^ 63) \<le> x" "x < 2 ^ 63"
  have "(2::int) ^ 64 = 2 ^ 63 + 2 ^ 63" by simp
  with a have "0 \<le> x + 2 ^ 63" "x + 2 ^ 63 < 2 ^ 64" by linarith+
  then have "(x + 2 ^ 63) mod 2 ^ 64 = x + 2 ^ 63" by (rule mod_pos_pos_trivial)
  then show ?thesis unfolding wrap64_def by linarith
qed

lemma clip_facts:
  fixes K d :: int
  assumes "0 < K"
  shows "- K \<le> max (- K) (min (K - 1) d)" "max (- K) (min (K - 1) d) < K"
    "0 \<le> d \<Longrightarrow> max (- K) (min (K - 1) d) \<le> d"
    "- K \<le> d \<Longrightarrow> d < K \<Longrightarrow> max (- K) (min (K - 1) d) = d"
  using assms by linarith+

lemma two63_pos: "(0::int) < 2 ^ 63"
  by simp

lemma Sub_range: "- (2 ^ 63) \<le> Sub t u \<and> Sub t u < 2 ^ 63"
  unfolding Sub_def using clip_facts(1,2) [OF two63_pos] by blast

lemma Sub_le: "0 \<le> t - u \<Longrightarrow> Sub t u \<le> t - u"
  unfolding Sub_def by (rule clip_facts(3) [OF two63_pos])

lemma Sub_exact: "- (2 ^ 63) \<le> t - u \<Longrightarrow> t - u < 2 ^ 63 \<Longrightarrow> Sub t u = t - u"
  unfolding Sub_def by (rule clip_facts(4) [OF two63_pos])


lemma quo_pos_iff: "0 < b \<Longrightarrow> 0 < quo a b \<longleftrightarrow> b \<le> a"
proof (cases "a < 0")
  case True
  assume "0 < b"
  with True have "0 \<le> (- a) div b"
    by (simp add: pos_imp_zdiv_nonneg_iff)
  with True \<open>0 < b\<close> show ?thesis
    by (simp add: quo_def)
next
  case False
  assume "0 < b"
  with False show ?thesis
    by (simp add: quo_def pos_imp_zdiv_pos_iff)
qed

lemma quo_pos_div: "0 < b \<Longrightarrow> 0 < quo a b \<Longrightarrow> quo a b = a div b"
  using quo_pos_iff [of b a] by (simp add: quo_def)

lemma quo_range:
  assumes "0 < b" "- K \<le> a" "a < K"
  shows "- K \<le> quo a b \<and> quo a b < K"
proof (cases "a < 0")
  case True
  have "(- a) div b \<le> - a"
    using True by (intro int_div_le_self) simp
  moreover have "0 \<le> (- a) div b"
    using True assms(1) by (simp add: pos_imp_zdiv_nonneg_iff)
  moreover have "quo a b = - ((- a) div b)"
    using True assms(1) by (simp add: quo_def)
  ultimately show ?thesis
    using True assms(2,3) by linarith
next
  case False
  then have "a div b \<le> a"
    using int_div_le_self [of a b] by (cases "a = 0") simp_all
  moreover have "0 \<le> a div b"
    using False assms(1) by (simp add: pos_imp_zdiv_nonneg_iff)
  moreover have "quo a b = a div b"
    using False assms(1) by (simp add: quo_def)
  ultimately show ?thesis
    using False assms(2,3) by linarith
qed

lemma tokensToAdd_floor:
  assumes "0 < b" "- (2 ^ 63) \<le> a" "a < 2 ^ 63"
  shows "(0 < wrap64 (quo a b) \<longleftrightarrow> 0 < a div b)
       \<and> (0 < a div b \<longrightarrow> wrap64 (quo a b) = a div b)"
proof -
  have "- (2 ^ 63) \<le> quo a b \<and> quo a b < 2 ^ 63"
    using assms by (rule quo_range)
  then have w: "wrap64 (quo a b) = quo a b"
    by (intro wrap64_id) blast+
  have p: "0 < quo a b \<longleftrightarrow> 0 < a div b"
    using assms(1) by (simp only: quo_pos_iff pos_imp_zdiv_pos_iff)
  have "0 < a div b \<longrightarrow> quo a b = a div b"
    using p quo_pos_div [OF assms(1)] by blast
  with p show ?thesis
    unfolding w by blast
qed

text \<open>
  With a positive interval \<^verbatim>\<open>tokensToAdd\<close> is positive exactly when the floor quotient
  is, and then both agree: the refill in terms of \<open>div\<close>.
\<close>

lemma refill_floor:
  assumes "0 < refillRate rl"
  shows "refill now rl =
     (let n = Sub now (lastRefillTime rl) div refillRate rl
      in if 0 < n
         then rl\<lparr>tokens := (let t = wrap64 (tokens rl + n)
                              in if maxTokens rl < t then maxTokens rl else t),
                  lastRefillTime := now\<rparr>
         else rl)"
proof -
  define e where "e = Sub now (lastRefillTime rl)"
  have r: "- (2 ^ 63) \<le> e" "e < 2 ^ 63"
    using Sub_range [of now "lastRefillTime rl"] by (simp_all only: e_def)
  note f = tokensToAdd_floor [OF assms r]
  show ?thesis
  proof (cases "0 < e div refillRate rl")
    case True
    with f have "wrap64 (quo e (refillRate rl)) = e div refillRate rl" by blast
    with True show ?thesis
      by (simp add: refill_def Let_def e_def [symmetric])
  next
    case False
    with f have "\<not> 0 < wrap64 (quo e (refillRate rl))" by blast
    with False show ?thesis
      by (simp add: refill_def Let_def e_def [symmetric])
  qed
qed

text \<open>
  Claim C1, as amended. For a bucket with refill interval \<open>I > 0\<close>, every \<^verbatim>\<open>Allow\<close>
  computes \<open>n = \<lfloor>elapsed / I\<rfloor>\<close>, where \<open>elapsed\<close> is \<open>now - last_refill\<close> as a
  \<^verbatim>\<open>Duration\<close>. When \<open>n > 0\<close> and the sum \<open>C + n\<close> is inside the \<^verbatim>\<open>int64\<close> range, the
  count becomes \<open>min M (C + n)\<close> and the last refill instant becomes \<open>now\<close>; when \<open>n\<close>
  is not positive both stay as they are. One token is then taken if the count is
  positive.
\<close>

theorem Allow_refills_to_now:
  assumes "0 < refillRate rl"
    and "- (2 ^ 63) \<le> tokens rl"
    and "tokens rl + Sub now (lastRefillTime rl) div refillRate rl < 2 ^ 63"
  shows "Allow now rl =
     (let n = Sub now (lastRefillTime rl) div refillRate rl;
          c = (if 0 < n then min (maxTokens rl) (tokens rl + n) else tokens rl);
          last = (if 0 < n then now else lastRefillTime rl)
      in Inr (0 < c, rl\<lparr>tokens := (if 0 < c then c - 1 else c), lastRefillTime := last\<rparr>))"
proof (cases "0 < Sub now (lastRefillTime rl) div refillRate rl")
  case True
  define n where "n = Sub now (lastRefillTime rl) div refillRate rl"
  have "- (2 ^ 63) \<le> tokens rl + n" "tokens rl + n < 2 ^ 63"
    using True assms(2,3) unfolding n_def by linarith+
  then have w: "wrap64 (tokens rl + n) = tokens rl + n"
    by (rule wrap64_id)
  have "refill now rl = rl\<lparr>tokens := min (maxTokens rl) (tokens rl + n), lastRefillTime := now\<rparr>"
    using True by (simp add: refill_floor [OF assms(1)] Let_def n_def [symmetric] w min_def)
  with True assms(1) show ?thesis
    by (simp add: Allow_def take_token_def Let_def n_def [symmetric])
next
  case False
  then have "refill now rl = rl"
    by (simp add: refill_floor [OF assms(1)] Let_def)
  with False assms(1) show ?thesis
    by (simp add: Allow_def take_token_def Let_def)
qed

theorem Allow_refills_to_now_witness:
  "Allow 250 \<lparr>tokens = 0, maxTokens = 2, refillRate = 100, lastRefillTime = 0\<rparr>
     = Inr (True, \<lparr>tokens = 1, maxTokens = 2, refillRate = 100, lastRefillTime = 250\<rparr>)"
  using Allow_refills_to_now
    [of "\<lparr>tokens = 0, maxTokens = 2, refillRate = 100, lastRefillTime = 0\<rparr>" 250]
  by (simp add: Sub_def)

text \<open>
  Claim C1 as stated fails: an empty bucket with \<open>M = 2\<close>, \<open>I = 100\<close>, last refilled at
  instant 0 and asked at instant 250 gets two tokens, and its last refill instant
  becomes 250, not \<open>0 + 2 * 100 = 200\<close>: the 50 left over are dropped.
\<close>

theorem Allow_last_refill_counterexample:
  "refill 250 \<lparr>tokens = 0, maxTokens = 2, refillRate = 100, lastRefillTime = 0\<rparr>
     = \<lparr>tokens = 2, maxTokens = 2, refillRate = 100, lastRefillTime = 250\<rparr>
   \<and> refill_spec 250 \<lparr>tokens = 0, maxTokens = 2, refillRate = 100, lastRefillTime = 0\<rparr>
     = \<lparr>tokens = 2, maxTokens = 2, refillRate = 100, lastRefillTime = 200\<rparr>
   \<and> Allow 250 \<lparr>tokens = 0, maxTokens = 2, refillRate = 100, lastRefillTime = 0\<rparr>
     = Inr (True, \<lparr>tokens = 1, maxTokens = 2, refillRate = 100, lastRefillTime = 250\<rparr>)"
  by (simp add: Allow_def refill_def refill_spec_def take_token_def quo_def Sub_def wrap64_def)

text \<open>
  The invariant is kept by every call whose clock reading lies in a window \<open>lo .. hi\<close>
  with \<open>M + \<lfloor>(hi - lo) / I\<rfloor>\<close> inside the \<^verbatim>\<open>int64\<close> range: then no refill sum wraps.
\<close>

lemma clip_pos:
  fixes K d :: int
  shows "0 < K \<Longrightarrow> 0 < max (- K) (min (K - 1) d) \<Longrightarrow> 0 < d"
  by linarith

lemma Sub_pos_le: "0 < Sub t u \<Longrightarrow> Sub t u \<le> t - u"
proof -
  assume p: "0 < Sub t u"
  then have "0 < t - u"
    unfolding Sub_def by (rule clip_pos [OF two63_pos])
  then show ?thesis by (intro Sub_le) simp
qed

lemma take_token_bounds:
  "0 \<le> tokens rl \<Longrightarrow> tokens rl \<le> m \<Longrightarrow>
     0 \<le> tokens (snd (take_token rl)) \<and> tokens (snd (take_token rl)) \<le> m"
  by (simp add: take_token_def)

lemma take_token_keeps:
  "maxTokens (snd (take_token rl)) = maxTokens rl"
  "refillRate (snd (take_token rl)) = refillRate rl"
  "lastRefillTime (snd (take_token rl)) = lastRefillTime rl"
  by (simp_all add: take_token_def)

lemma refill_ok:
  assumes ok: "bucket_ok m r lo hi rl" and r: "0 < r"
    and now: "lo \<le> now" "now \<le> hi"
    and room: "m + (hi - lo) div r < 2 ^ 63"
  shows "bucket_ok m r lo hi (refill now rl)"
proof -
  define n where "n = Sub now (lastRefillTime rl) div refillRate rl"
  from ok have f: "0 \<le> tokens rl" "tokens rl \<le> m" "maxTokens rl = m" "refillRate rl = r"
    "lo \<le> lastRefillTime rl" "lastRefillTime rl \<le> hi"
    by (simp_all add: bucket_ok_def)
  have rr: "0 < refillRate rl" using f r by simp
  show ?thesis
  proof (cases "0 < n")
    case False
    then have "refill now rl = rl"
      by (simp add: refill_floor [OF rr] Let_def n_def)
    with ok show ?thesis by simp
  next
    case True
    then have "0 < Sub now (lastRefillTime rl)"
      using rr unfolding n_def by (simp add: pos_imp_zdiv_pos_iff)
    then have "Sub now (lastRefillTime rl) \<le> now - lastRefillTime rl"
      by (rule Sub_pos_le)
    also have "\<dots> \<le> hi - lo" using now f by linarith
    finally have "n \<le> (hi - lo) div r"
      unfolding n_def f(4) using r by (intro zdiv_mono1)
    with room f True have "- (2 ^ 63) \<le> tokens rl + n" "tokens rl + n < 2 ^ 63"
      by linarith+
    then have w: "wrap64 (tokens rl + n) = tokens rl + n"
      by (rule wrap64_id)
    have "refill now rl
        = (if 0 < n
           then rl\<lparr>tokens := (if maxTokens rl < wrap64 (tokens rl + n) then maxTokens rl
                              else wrap64 (tokens rl + n)),
                    lastRefillTime := now\<rparr>
           else rl)"
      unfolding n_def by (simp only: refill_floor [OF rr] Let_def)
    then have "refill now rl
        = rl\<lparr>tokens := (if m < tokens rl + n then m else tokens rl + n), lastRefillTime := now\<rparr>"
      using True by (simp only: w f(3) if_True)
    with f True now show ?thesis
      by (simp add: bucket_ok_def)
  qed
qed

lemma Allow_ok:
  assumes "bucket_ok m r lo hi rl" "0 < r" "lo \<le> now" "now \<le> hi"
    "m + (hi - lo) div r < 2 ^ 63"
  shows "\<exists>ok rl'. Allow now rl = Inr (ok, rl') \<and> bucket_ok m r lo hi rl'"
proof -
  have b: "bucket_ok m r lo hi (refill now rl)"
    using assms by (rule refill_ok)
  from assms(1,2) have "Allow now rl = Inr (take_token (refill now rl))"
    by (simp add: Allow_def bucket_ok_def)
  moreover have "bucket_ok m r lo hi (snd (take_token (refill now rl)))"
    using b take_token_bounds [of "refill now rl" m]
    by (simp add: bucket_ok_def take_token_keeps)
  ultimately show ?thesis
    by (metis prod.collapse)
qed

lemma Allow_run_ok:
  assumes "0 < r" "m + (hi - lo) div r < 2 ^ 63"
  shows "bucket_ok m r lo hi rl \<Longrightarrow> list_all (\<lambda>t. lo \<le> t \<and> t \<le> hi) ts \<Longrightarrow>
     \<exists>run. Allow_run ts rl = Inr run \<and> length run = length ts \<and>
        list_all (\<lambda>(ok, rl'). bucket_ok m r lo hi rl') run"
proof (induction ts arbitrary: rl)
  case Nil
  then show ?case by simp
next
  case (Cons t ts)
  from Cons.prems(2) have t: "lo \<le> t" "t \<le> hi" and ts: "list_all (\<lambda>t. lo \<le> t \<and> t \<le> hi) ts"
    by simp_all
  from Allow_ok [OF Cons.prems(1) assms(1) t assms(2)] obtain ok rl'
    where a: "Allow t rl = Inr (ok, rl')" and b: "bucket_ok m r lo hi rl'" by blast
  from Cons.IH [OF b ts] obtain run where "Allow_run ts rl' = Inr run"
    and "length run = length ts"
    and "list_all (\<lambda>(ok, rl'). bucket_ok m r lo hi rl') run" by blast
  with a b show ?case by simp
qed

text \<open>
  Claim C8, as amended. A newly constructed bucket starts with \<open>C = M\<close>. For a ceiling
  \<open>M \<ge> 0\<close>, an interval \<open>I > 0\<close> and clock readings (of the construction and of every
  call) that all lie in a window \<open>lo .. hi\<close> with \<open>M + \<lfloor>(hi - lo) / I\<rfloor> < 2\<^sup>6\<^sup>3\<close>, every
  sequence of \<^verbatim>\<open>Allow\<close> calls runs to its end without a panic and leaves
  \<open>0 \<le> C \<le> M\<close> after each call.
\<close>

theorem bucket_bounds:
  assumes "0 \<le> m" "0 < r"
    and "lo \<le> t0" "t0 \<le> hi" "list_all (\<lambda>t. lo \<le> t \<and> t \<le> hi) ts"
    and "m + (hi - lo) div r < 2 ^ 63"
  shows "tokens (NewRateLimiter t0 m r) = m \<and>
     (\<exists>run. Allow_run ts (NewRateLimiter t0 m r) = Inr run \<and> length run = length ts \<and>
        list_all (\<lambda>(ok, rl). 0 \<le> tokens rl \<and> tokens rl \<le> m) run)"
proof -
  have "bucket_ok m r lo hi (NewRateLimiter t0 m r)"
    using assms(1,3,4) by (simp add: bucket_ok_def NewRateLimiter_def)
  from Allow_run_ok [OF assms(2,6) this assms(5)] obtain run
    where "Allow_run ts (NewRateLimiter t0 m r) = Inr run"
      and "length run = length ts"
      and "list_all (\<lambda>(ok, rl'). bucket_ok m r lo hi rl') run" by auto
  then have "Allow_run ts (NewRateLimiter t0 m r) = Inr run \<and> length run = length ts \<and>
        list_all (\<lambda>(ok, rl). 0 \<le> tokens rl \<and> tokens rl \<le> m) run"
    by (auto simp: list_all_iff bucket_ok_def)
  then show ?thesis by (auto simp: NewRateLimiter_def)
qed

theorem bucket_bounds_witness:
  "tokens (NewRateLimiter 0 2 100) = 2 \<and>
     (\<exists>run. Allow_run [0, 0, 0, 250] (NewRateLimiter 0 2 100) = Inr run \<and>
        length run = length [0, 0, 0, 250 :: int] \<and>
        list_all (\<lambda>(ok, rl). 0 \<le> tokens rl \<and> tokens rl \<le> 2) run)"
  using bucket_bounds [of 2 100 0 0 250 "[0, 0, 0, 250]"] by simp

text \<open>
  Claim C8 as stated fails in two ways. A bucket constructed with \<open>M = -1\<close> holds
  \<open>C = -1\<close>. And a full bucket with \<open>M = 2\<^sup>6\<^sup>3 - 1\<close> and \<open>I = 1\<close> ns that is asked 10 ns
  after its construction adds 10 to the count, which wraps to a negative number that
  the ceiling does not catch: the call is refused and the count stays negative.
\<close>

theorem bucket_bounds_counterexample:
  "tokens (NewRateLimiter 0 (- 1) 100) = - 1
   \<and> Allow 10 (NewRateLimiter 0 9223372036854775807 1)
     = Inr (False, \<lparr>tokens = - 9223372036854775799, maxTokens = 9223372036854775807,
                    refillRate = 1, lastRefillTime = 10\<rparr>)"
  by (simp add: NewRateLimiter_def Allow_def refill_def take_token_def quo_def Sub_def wrap64_def)

section \<open>Properties of the circuit breaker\<close>

lemma Execute_rejects:
  "state cb = StateOpen \<Longrightarrow> t - lastFailTime cb \<le> resetTimeout cb \<Longrightarrow>
     Execute t t' fn cb w = (Some (ErrorString ''circuit breaker is open''), cb, w)"
  by (simp add: Execute_def)

lemma Execute_closed_failure:
  "state cb = StateClosed \<Longrightarrow> fn w = (Some e, w') \<Longrightarrow>
     Execute t t' fn cb w =
       (Some e,
        cb\<lparr>failures := failures cb + 1, lastFailTime := t',
           state := (if maxFailures cb \<le> failures cb + 1 then StateOpen else StateClosed)\<rparr>,
        w')"
  by (simp add: Execute_def)

lemma Execute_success:
  assumes "fn w = (None, w')"
    and "state cb \<noteq> StateOpen \<or> resetTimeout cb < t - lastFailTime cb"
  shows "Execute t t' fn cb w = (None, cb\<lparr>state := StateClosed, failures := 0\<rparr>, w')"
proof (cases "state cb")
  case StateClosed
  with assms show ?thesis by (simp add: Execute_def)
next
  case StateOpen
  with assms show ?thesis by (simp add: Execute_def)
next
  case StateHalfOpen
  with assms show ?thesis by (simp add: Execute_def)
qed

text \<open>
  Claim C2. A breaker built with \<open>F = 3\<close> and \<open>R = 1s\<close> (\<open>10\<^sup>9\<close> ns) is called four times.
  The first three operations are invoked and fail, and their errors are returned. The
  fourth call, checked no later than \<open>R\<close> after the third failure was stamped, returns
  the circuit-open error; its operation is not invoked (the world stays \<open>w3\<close>). A later
  call, checked more than \<open>R\<close> after that stamp, with an operation that succeeds, is
  admitted, closes the breaker and returns \<^verbatim>\<open>nil\<close>.
\<close>

theorem breaker_burst_scenario:
  assumes f1: "fn1 w0 = (Some e1, w1)"
    and f2: "fn2 w1 = (Some e2, w2)"
    and f3: "fn3 w2 = (Some e3, w3)"
    and within: "t4 - t3' \<le> 1000000000"
    and after: "1000000000 < t5 - t3'"
    and ok: "fn5 w3 = (None, w5)"
  shows "Execute_run [(t1, t1', fn1), (t2, t2', fn2), (t3, t3', fn3), (t4, t4', fn4)]
           (NewCircuitBreaker 3 1000000000) w0
         = ([Some e1, Some e2, Some e3, Some (ErrorString ''circuit breaker is open'')],
            \<lparr>maxFailures = 3, resetTimeout = 1000000000, state = StateOpen, failures = 3,
             lastFailTime = t3'\<rparr>,
            w3)
       \<and> Execute t5 t5' fn5
            \<lparr>maxFailures = 3, resetTimeout = 1000000000, state = StateOpen, failures = 3,
             lastFailTime = t3'\<rparr> w3
         = (None,
            \<lparr>maxFailures = 3, resetTimeout = 1000000000, state = StateClosed, failures = 0,
             lastFailTime = t3'\<rparr>,
            w5)"
proof -
  let ?cb0 = "NewCircuitBreaker 3 1000000000"
  let ?cb1 = "\<lparr>maxFailures = 3, resetTimeout = 1000000000, state = StateClosed, failures = 1,
             lastFailTime = t1'\<rparr>"
  let ?cb2 = "\<lparr>maxFailures = 3, resetTimeout = 1000000000, state = StateClosed, failures = 2,
             lastFailTime = t2'\<rparr>"
  let ?cb3 = "\<lparr>maxFailures = 3, resetTimeout = 1000000000, state = StateOpen, failures = 3,
             lastFailTime = t3'\<rparr>"
  have s1: "Execute t1 t1' fn1 ?cb0 w0 = (Some e1, ?cb1, w1)"
    using f1 by (simp add: Execute_def NewCircuitBreaker_def)
  have s2: "Execute t2 t2' fn2 ?cb1 w1 = (Some e2, ?cb2, w2)"
    using f2 by (simp add: Execute_def)
  have s3: "Execute t3 t3' fn3 ?cb2 w2 = (Some e3, ?cb3, w3)"
    using f3 by (simp add: Execute_def)
  have s4: "Execute t4 t4' fn4 ?cb3 w3 = (Some (ErrorString ''circuit breaker is open''), ?cb3, w3)"
    using within by (simp add: Execute_def)
  have s5: "Execute t5 t5' fn5 ?cb3 w3 =
      (None, \<lparr>maxFailures = 3, resetTimeout = 1000000000, state = StateClosed, failures = 0,
             lastFailTime = t3'\<rparr>, w5)"
    using after ok by (simp add: Execute_def)
  from s1 s2 s3 s4 s5 show ?thesis by simp
qed

theorem breaker_burst_scenario_witness:
  "Execute_run [(0, 1, failing (ErrorString ''down'')), (2, 3, failing (ErrorString ''down'')),
                (4, 5, failing (ErrorString ''down'')), (6, 7, failing (ErrorString ''down''))]
           (NewCircuitBreaker 3 1000000000) 0
         = ([Some (ErrorString ''down''), Some (ErrorString ''down''), Some (ErrorString ''down''),
             Some (ErrorString ''circuit breaker is open'')],
            \<lparr>maxFailures = 3, resetTimeout = 1000000000, state = StateOpen, failures = 3,
             lastFailTime = 5\<rparr>,
            3)
       \<and> Execute 1100000005 1100000006 succeeding
            \<lparr>maxFailures = 3, resetTimeout = 1000000000, state = StateOpen, failures = 3,
             lastFailTime = 5\<rparr> 3
         = (None,
            \<lparr>maxFailures = 3, resetTimeout = 1000000000, state = StateClosed, failures = 0,
             lastFailTime = 5\<rparr>,
            4)"
  using breaker_burst_scenario [of "failing (ErrorString ''down'')" 0 "ErrorString ''down''" 1
      "failing (ErrorString ''down'')" "ErrorString ''down''" 2
      "failing (ErrorString ''down'')" "ErrorString ''down''" 3
      6 5 1100000005 succeeding 4 0 1 2 3 4 7 "failing (ErrorString ''down'')" 1100000006]
  by (simp add: failing_def succeeding_def)

lemma Execute_run_Cons_breaker:
  "Execute t t' fn cb w = (r, cb1, w1) \<Longrightarrow>
     fst (snd (Execute_run ((t, t', fn) # cs) cb w)) = fst (snd (Execute_run cs cb1 w1))"
  by (simp split: prod.splits)

lemma failures_accumulate_from_closed:
  "state cb = StateClosed \<Longrightarrow> list_all (\<lambda>c. always_fails (snd (snd c))) cs \<Longrightarrow>
   failures cb + length cs < maxFailures cb \<Longrightarrow>
   state (fst (snd (Execute_run cs cb w))) = StateClosed \<and>
   failures (fst (snd (Execute_run cs cb w))) = failures cb + length cs"
proof (induction cs arbitrary: cb w)
  case Nil
  then show ?case by simp
next
  case (Cons c cs)
  obtain t t' fn where c: "c = (t, t', fn)" by (cases c) auto
  from Cons.prems c have "always_fails fn" by simp
  then obtain e w1 where fw: "fn w = (Some e, w1)"
    unfolding always_fails_def by (metis prod.collapse option.exhaust fst_conv)
  define cb1 where "cb1 = cb\<lparr>failures := failures cb + 1, lastFailTime := t',
           state := (if maxFailures cb \<le> failures cb + 1 then StateOpen else StateClosed)\<rparr>"
  have ex: "Execute t t' fn cb w = (Some e, cb1, w1)"
    unfolding cb1_def using Cons.prems(1) fw by (rule Execute_closed_failure)
  have st: "state cb1 = StateClosed" using Cons.prems(3) by (simp add: cb1_def)
  have fs: "failures cb1 = failures cb + 1" "maxFailures cb1 = maxFailures cb"
    by (simp_all add: cb1_def)
  have "list_all (\<lambda>c. always_fails (snd (snd c))) cs" using Cons.prems(2) by simp
  moreover have "failures cb1 + length cs < maxFailures cb1" using Cons.prems(3) fs by simp
  ultimately have "state (fst (snd (Execute_run cs cb1 w1))) = StateClosed \<and>
      failures (fst (snd (Execute_run cs cb1 w1))) = failures cb1 + length cs"
    by (rule Cons.IH [OF st])
  with c fs show ?case by (simp only: Execute_run_Cons_breaker [OF ex]) simp
qed

text \<open>
  Claim C9. An admitted call (breaker not Open, or Open with the reset timeout elapsed)
  whose operation succeeds leaves the failure counter at 0 and the breaker Closed,
  whatever the counter was before; so fewer than \<open>F\<close> failing calls after it leave the
  breaker Closed, with the counter at their number.
\<close>

theorem success_resets_failures:
  assumes "fn w = (None, w')"
    and "state cb \<noteq> StateOpen \<or> resetTimeout cb < t - lastFailTime cb"
    and "list_all (\<lambda>c. always_fails (snd (snd c))) cs"
    and "length cs < maxFailures cb"
  shows "Execute t t' fn cb w = (None, cb\<lparr>state := StateClosed, failures := 0\<rparr>, w')
       \<and> failures (fst (snd (Execute t t' fn cb w))) = 0
       \<and> state (fst (snd (Execute_run ((t, t', fn) # cs) cb w))) = StateClosed
       \<and> failures (fst (snd (Execute_run ((t, t', fn) # cs) cb w))) = length cs"
proof -
  let ?cb = "cb\<lparr>state := StateClosed, failures := 0\<rparr>"
  have ex: "Execute t t' fn cb w = (None, ?cb, w')"
    using assms(1,2) by (rule Execute_success)
  have "state (fst (snd (Execute_run cs ?cb w'))) = StateClosed \<and>
        failures (fst (snd (Execute_run cs ?cb w'))) = failures ?cb + length cs"
    using assms(3,4) by (intro failures_accumulate_from_closed) simp_all
  with ex show ?thesis by (simp only: Execute_run_Cons_breaker [OF ex]) simp
qed

theorem success_resets_failures_witness:
  "Execute 7 8 succeeding
      \<lparr>maxFailures = 3, resetTimeout = 1000, state = StateClosed, failures = 2, lastFailTime = 6\<rparr> 2
    = (None,
       \<lparr>maxFailures = 3, resetTimeout = 1000, state = StateClosed, failures = 0, lastFailTime = 6\<rparr>, 3)
   \<and> state (fst (snd (Execute_run
        [(7, 8, succeeding), (9, 10, failing ContextCanceled), (11, 12, failing ContextCanceled)]
        \<lparr>maxFailures = 3, resetTimeout = 1000, state = StateClosed, failures = 2, lastFailTime = 6\<rparr>
        2))) = StateClosed"
  using success_resets_failures [where fn = succeeding and w = 2 and w' = 3 and t = 7 and t' = 8
      and cb = "\<lparr>maxFailures = 3, resetTimeout = 1000, state = StateClosed, failures = 2, lastFailTime = 6\<rparr>"
      and cs = "[(9, 10, failing ContextCanceled), (11, 12, failing ContextCanceled)]"]
  by (simp add: succeeding_def failing_def always_fails_def Execute_def)

section \<open>Properties of the retry engine\<close>

text \<open>
  The loop under a context that never reports cancellation: what it records about the
  attempts, by induction along the loop.
\<close>

lemma retry_loop_attempts:
  "errAfter ctx = (\<lambda>_. None) \<Longrightarrow> doneDuring ctx = (\<lambda>_. None) \<Longrightarrow>
   attempt \<le> MaxAttempts config \<Longrightarrow>
   (case retry_loop ctx config fn attempt delay err w of
      (res, w', evs) \<Rightarrow>
        attempts evs \<noteq> []
      \<and> int (length (attempts evs)) \<le> MaxAttempts config - attempt + 1
      \<and> attempts evs = results fn (length (attempts evs)) w
      \<and> w' = invoked fn (length (attempts evs)) w
      \<and> list_all (\<lambda>r. r \<noteq> None) (butlast (attempts evs))
      \<and> res = last (attempts evs)
      \<and> (res \<noteq> None \<longrightarrow> int (length (attempts evs)) = MaxAttempts config - attempt + 1))"
proof (induction ctx config fn attempt delay err w rule: retry_loop.induct)
  case (1 ctx config fn attempt delay err w)
  note quiet = "1.prems"(1,2)
  obtain r w1 where fw: "fn w = (r, w1)" by (cases "fn w")
  show ?case
  proof (cases r)
    case None
    with fw "1.prems" show ?thesis by simp
  next
    case (Some e)
    show ?thesis
    proof (cases "attempt = MaxAttempts config")
      case True
      with fw Some "1.prems" show ?thesis by simp
    next
      case False
      with "1.prems" have lt: "attempt + 1 \<le> MaxAttempts config" by simp
      obtain res w2 evs where rec:
        "retry_loop ctx config fn (attempt + 1) (next_delay config delay) (Some e) w1 = (res, w2, evs)"
        by (cases "retry_loop ctx config fn (attempt + 1) (next_delay config delay) (Some e) w1")
      have IH: "attempts evs \<noteq> []
      \<and> int (length (attempts evs)) \<le> MaxAttempts config - (attempt + 1) + 1
      \<and> attempts evs = results fn (length (attempts evs)) w1
      \<and> w2 = invoked fn (length (attempts evs)) w1
      \<and> list_all (\<lambda>r. r \<noteq> None) (butlast (attempts evs))
      \<and> res = last (attempts evs)
      \<and> (res \<noteq> None \<longrightarrow> int (length (attempts evs)) = MaxAttempts config - (attempt + 1) + 1)"
        using "1.IH" [of "Some e" w1 e] "1.prems" fw Some False lt rec
        by simp
      have unf: "retry_loop ctx config fn attempt delay err w
          = (res, w2, Attempt (Some e) # Sleep delay # evs)"
        using "1.prems" fw Some False rec
        by (subst retry_loop.simps) simp
      from IH fw Some show ?thesis
        unfolding unf by simp
    qed
  qed
qed








lemma retry_flaky_eval:
  "Retry Background DefaultRetryConfig (fails_until 2 (ErrorString ''unavailable'')) 0
     = (None, 3,
        [Attempt (Some (ErrorString ''unavailable'')), Sleep (Some 100000000),
         Attempt (Some (ErrorString ''unavailable'')), Sleep (Some 200000000),
         Attempt None])"
  by code_simp

text \<open>
  Claim C6. With \<open>A \<ge> 1\<close> maximum attempts and a cancel signal that never fires, \<^verbatim>\<open>Retry\<close>
  invokes the operation at least once and at most \<open>A\<close> times; the recorded results are
  the results of these invocations and the world is the one they leave. Every attempt
  but the last failed, so the first success ends the run; the value returned is the
  result of the last attempt, \<^verbatim>\<open>nil\<close> after a success; and when an error is returned,
  all \<open>A\<close> attempts were made and it is the error of the last one.
\<close>

theorem retry_attempts:
  assumes "1 \<le> MaxAttempts config"
  shows "case Retry Background config fn w of
           (res, w', evs) \<Rightarrow>
               attempts evs \<noteq> []
             \<and> int (length (attempts evs)) \<le> MaxAttempts config
             \<and> attempts evs = results fn (length (attempts evs)) w
             \<and> w' = invoked fn (length (attempts evs)) w
             \<and> list_all (\<lambda>r. r \<noteq> None) (butlast (attempts evs))
             \<and> res = last (attempts evs)
             \<and> (res \<noteq> None \<longrightarrow> int (length (attempts evs)) = MaxAttempts config)"
  using retry_loop_attempts [where ctx = Background and attempt = 1 and config = config
      and fn = fn and delay = "Some (InitialDelay config)" and err = None and w = w] assms
  by (simp add: Retry_def Background_def)

theorem retry_attempts_witness:
  "1 \<le> MaxAttempts DefaultRetryConfig
   \<and> fst (Retry Background DefaultRetryConfig (fails_until 2 (ErrorString ''unavailable'')) 0) = None
   \<and> attempts (snd (snd (Retry Background DefaultRetryConfig
         (fails_until 2 (ErrorString ''unavailable'')) 0)))
       = results (fails_until 2 (ErrorString ''unavailable'')) 3 0"
  using retry_attempts [where config = DefaultRetryConfig
      and fn = "fails_until 2 (ErrorString ''unavailable'')" and w = 0]
  unfolding retry_flaky_eval
  by (simp add: DefaultRetryConfig_def fails_until_def eval_nat_numeral)




text \<open>
  Claim C10. With fewer than one maximum attempt the loop body never runs: \<^verbatim>\<open>Retry\<close>
  returns \<^verbatim>\<open>nil\<close>, the operation is not invoked (the world is unchanged) and nothing is
  recorded.
\<close>

theorem retry_no_attempts:
  "MaxAttempts config < 1 \<Longrightarrow> Retry ctx config fn w = (None, w, [])"
  by (simp add: Retry_def)

theorem retry_no_attempts_witness:
  "Retry Background (DefaultRetryConfig\<lparr>MaxAttempts := 0\<rparr>) (failing (ErrorString ''unavailable'')) 0
     = (None, 0, [])"
  using retry_no_attempts [where config = "DefaultRetryConfig\<lparr>MaxAttempts := 0\<rparr>"
      and ctx = Background and fn = "failing (ErrorString ''unavailable'')" and w = 0]
  by (simp add: DefaultRetryConfig_def)

section \<open>Properties of the worker pool\<close>

text \<open>
  The guards of \<^verbatim>\<open>Start\<close> and \<^verbatim>\<open>Stop\<close>: \<^verbatim>\<open>Start\<close> on a running pool and \<^verbatim>\<open>Stop\<close> on
  a pool that is not running (never started, or stopped) change nothing, and a
  successful \<^verbatim>\<open>Stop\<close> leaves the pool not running with both of its channels closed.
\<close>

lemma Start_running_noop: "isRunning wp \<Longrightarrow> Start wp = wp"
  by (simp add: Start_def)

lemma Start_not_running: "\<not> isRunning wp \<Longrightarrow> isRunning (Start wp) \<and> jobQueue (Start wp) = jobQueue wp \<and> quit (Start wp) = quit wp"
  by (simp add: Start_def)

lemma Stop_not_running_noop: "\<not> isRunning wp \<Longrightarrow> Stop wp = Inr wp"
  by (simp add: Stop_def)

lemma Stop_result: "Stop wp = Inr wp' \<Longrightarrow> \<not> isRunning wp'"
  by (auto simp: Stop_def split: if_splits sum.splits)

lemma Stop_running_closes:
  "isRunning wp \<Longrightarrow> Stop wp = Inr wp' \<Longrightarrow> is_closed (jobQueue wp') \<and> quit wp'"
  by (auto simp: Stop_def split: if_splits sum.splits)

text \<open>
  Claim C3, as amended. The pool records only whether it is running. \<^verbatim>\<open>Start\<close> on a
  running pool changes nothing, and so does \<^verbatim>\<open>Stop\<close> on a pool that is not running,
  whether it was never started or has been stopped. \<^verbatim>\<open>Start\<close> on a pool that was never
  started makes it running with both channels open, and a \<^verbatim>\<open>Stop\<close> of a running pool
  that returns leaves it not running with both channels closed.
\<close>

theorem pool_lifecycle_flag:
  "(isRunning wp \<longrightarrow> Start wp = wp)
   \<and> (\<not> isRunning wp \<longrightarrow> Stop wp = Inr wp)
   \<and> (\<not> isRunning wp \<and> \<not> quit wp \<and> \<not> is_closed (jobQueue wp) \<longrightarrow>
        isRunning (Start wp) \<and> \<not> quit (Start wp) \<and> \<not> is_closed (jobQueue (Start wp)))
   \<and> (isRunning wp \<and> Stop wp = Inr wp' \<longrightarrow>
        \<not> isRunning wp' \<and> quit wp' \<and> is_closed (jobQueue wp'))"
  using Start_running_noop [of wp] Stop_not_running_noop [of wp] Start_not_running [of wp]
    Stop_running_closes [of wp wp'] Stop_result [of wp wp']
  by simp

theorem pool_lifecycle_flag_witness:
  "Start \<lparr>workers = [Some \<lparr>id_w = 1, quit_w = False\<rparr>],
          jobQueue = \<lparr>buf = [], capacity = 100, is_closed = False\<rparr>,
          handlers = Map.empty, quit = False, wg = 1, isRunning = True\<rparr>
     = \<lparr>workers = [Some \<lparr>id_w = 1, quit_w = False\<rparr>],
        jobQueue = \<lparr>buf = [], capacity = 100, is_closed = False\<rparr>,
        handlers = Map.empty, quit = False, wg = 1, isRunning = True\<rparr>
   \<and> Stop \<lparr>workers = [None], jobQueue = \<lparr>buf = [], capacity = 100, is_closed = False\<rparr>,
           handlers = Map.empty, quit = False, wg = 0, isRunning = False\<rparr>
     = Inr \<lparr>workers = [None], jobQueue = \<lparr>buf = [], capacity = 100, is_closed = False\<rparr>,
            handlers = Map.empty, quit = False, wg = 0, isRunning = False\<rparr>
   \<and> isRunning (Start \<lparr>workers = [None],
           jobQueue = \<lparr>buf = [], capacity = 100, is_closed = False\<rparr>,
           handlers = Map.empty, quit = False, wg = 0, isRunning = False\<rparr>)
   \<and> Stop \<lparr>workers = [Some \<lparr>id_w = 1, quit_w = True\<rparr>],
            jobQueue = \<lparr>buf = [], capacity = 100, is_closed = True\<rparr>,
            handlers = Map.empty, quit = True, wg = 0, isRunning = False\<rparr>
     = Inr \<lparr>workers = [Some \<lparr>id_w = 1, quit_w = True\<rparr>],
            jobQueue = \<lparr>buf = [], capacity = 100, is_closed = True\<rparr>,
            handlers = Map.empty, quit = True, wg = 0, isRunning = False\<rparr>"
  using pool_lifecycle_flag
      [where wp = "\<lparr>workers = [Some \<lparr>id_w = 1, quit_w = False\<rparr>],
          jobQueue = \<lparr>buf = [], capacity = 100, is_closed = False\<rparr>,
          handlers = Map.empty, quit = False, wg = 1, isRunning = True\<rparr>"]
    pool_lifecycle_flag
      [where wp = "\<lparr>workers = [None], jobQueue = \<lparr>buf = [], capacity = 100, is_closed = False\<rparr>,
           handlers = Map.empty, quit = False, wg = 0, isRunning = False\<rparr>"]
    pool_lifecycle_flag
      [where wp = "\<lparr>workers = [Some \<lparr>id_w = 1, quit_w = True\<rparr>],
            jobQueue = \<lparr>buf = [], capacity = 100, is_closed = True\<rparr>,
            handlers = Map.empty, quit = True, wg = 0, isRunning = False\<rparr>"]
  by simp

text \<open>
  Claim C3 as stated fails at the call sequence \<^verbatim>\<open>NewWorkerPool(1)\<close>, \<^verbatim>\<open>Start()\<close>,
  \<^verbatim>\<open>Stop()\<close>, \<^verbatim>\<open>Start()\<close>. After \<^verbatim>\<open>Stop\<close> the flag is false, as in a pool that was
  never started. The second \<^verbatim>\<open>Start\<close> is not rejected: it launches a worker again and
  sets the flag, so the pool is running once more, now on a closed job queue, and the
  next \<^verbatim>\<open>Stop\<close> panics on closing \<^verbatim>\<open>wp.quit\<close> a second time.
\<close>

theorem Start_after_Stop_restarts:
  "NewWorkerPool 1
     = Inr \<lparr>workers = [None], jobQueue = \<lparr>buf = [], capacity = 100, is_closed = False\<rparr>,
            handlers = Map.empty, quit = False, wg = 0, isRunning = False\<rparr>
   \<and> Stop (Start \<lparr>workers = [None], jobQueue = \<lparr>buf = [], capacity = 100, is_closed = False\<rparr>,
                   handlers = Map.empty, quit = False, wg = 0, isRunning = False\<rparr>)
     = Inr \<lparr>workers = [Some \<lparr>id_w = 1, quit_w = True\<rparr>],
            jobQueue = \<lparr>buf = [], capacity = 100, is_closed = True\<rparr>,
            handlers = Map.empty, quit = True, wg = 0, isRunning = False\<rparr>
   \<and> Start \<lparr>workers = [Some \<lparr>id_w = 1, quit_w = True\<rparr>],
             jobQueue = \<lparr>buf = [], capacity = 100, is_closed = True\<rparr>,
             handlers = Map.empty, quit = True, wg = 0, isRunning = False\<rparr>
     = \<lparr>workers = [Some \<lparr>id_w = 1, quit_w = False\<rparr>],
        jobQueue = \<lparr>buf = [], capacity = 100, is_closed = True\<rparr>,
        handlers = Map.empty, quit = True, wg = 1, isRunning = True\<rparr>
   \<and> Stop \<lparr>workers = [Some \<lparr>id_w = 1, quit_w = False\<rparr>],
            jobQueue = \<lparr>buf = [], capacity = 100, is_closed = True\<rparr>,
            handlers = Map.empty, quit = True, wg = 1, isRunning = True\<rparr>
     = Inl CloseOfClosedChannel"
  by (simp add: NewWorkerPool_def Start_def Stop_def stop_w_def)

text \<open>
  On a pool whose job queue is open while it runs, \<^verbatim>\<open>Submit\<close> has exactly the three
  outcomes: refused when not running, refused without enqueuing when the buffer is
  full, and enqueued at the end of the buffer otherwise.
\<close>

lemma Submit_open_queue:
  assumes "isRunning wp \<longrightarrow> \<not> is_closed (jobQueue wp)"
  shows "Submit job wp =
     (if \<not> isRunning wp then Inr (Some (ErrorString ''worker pool is not running''), wp)
      else if length (buf (jobQueue wp)) < capacity (jobQueue wp)
      then Inr (None, wp\<lparr>jobQueue := (jobQueue wp)\<lparr>buf := buf (jobQueue wp) @ [job]\<rparr>\<rparr>)
      else Inr (Some (ErrorString ''job queue is full''), wp))"
  using assms by (simp add: Submit_def Let_def)

text \<open>
  Claim C7 at the pool that the sequence \<^verbatim>\<open>NewWorkerPool(1)\<close>, \<^verbatim>\<open>Start()\<close>, \<^verbatim>\<open>Stop()\<close>,
  \<^verbatim>\<open>Start()\<close> leaves: it is running and its queue is empty, so the claim has the job
  enqueued and \<^verbatim>\<open>nil\<close> returned, but the queue is closed and the send panics.
\<close>

theorem Submit_after_restart_panics:
  "NewWorkerPool 1
     = Inr \<lparr>workers = [None], jobQueue = \<lparr>buf = [], capacity = 100, is_closed = False\<rparr>,
            handlers = Map.empty, quit = False, wg = 0, isRunning = False\<rparr>
   \<and> Stop (Start \<lparr>workers = [None], jobQueue = \<lparr>buf = [], capacity = 100, is_closed = False\<rparr>,
                   handlers = Map.empty, quit = False, wg = 0, isRunning = False\<rparr>)
     = Inr \<lparr>workers = [Some \<lparr>id_w = 1, quit_w = True\<rparr>],
            jobQueue = \<lparr>buf = [], capacity = 100, is_closed = True\<rparr>,
            handlers = Map.empty, quit = True, wg = 0, isRunning = False\<rparr>
   \<and> Submit \<lparr>ID = ''job-1'', Type = ''email'', Payload = VNil, CreatedAt = 0,
              Status = ''pending'', Error = None\<rparr>
        (Start \<lparr>workers = [Some \<lparr>id_w = 1, quit_w = True\<rparr>],
                jobQueue = \<lparr>buf = [], capacity = 100, is_closed = True\<rparr>,
                handlers = Map.empty, quit = True, wg = 0, isRunning = False\<rparr>)
     = Inl SendOnClosedChannel"
  by (simp add: NewWorkerPool_def Start_def Stop_def stop_w_def Submit_def)

lemma executeJob_returns_error:
  "hs (Type job) = Some h \<Longrightarrow> h job = Returns (Some e) job' \<Longrightarrow>
     executeJob hs job = Inr (job'\<lparr>Status := ''failed'', Error := Some e\<rparr>)"
  by (simp add: executeJob_def)

lemma executeJob_panics:
  "hs (Type job) = Some h \<Longrightarrow> h job = Panics p \<Longrightarrow> executeJob hs job = Inl p"
  by (simp add: executeJob_def)

text \<open>
  Claim C4, as amended. For a job whose type has a handler: when the handler returns an
  error, \<^verbatim>\<open>executeJob\<close> marks the job failed with that error and the worker goes on
  with the jobs that follow; when the handler panics, \<^verbatim>\<open>executeJob\<close> does not catch
  the panic: it ends the worker's loop, and neither this job nor a later one is
  finished.
\<close>

theorem executeJob_error_or_panic:
  assumes "hs (Type job) = Some h"
  shows "(h job = Returns (Some e) job' \<longrightarrow>
            executeJob hs job = Inr (job'\<lparr>Status := ''failed'', Error := Some e\<rparr>)
          \<and> start_w hs (job # jobs)
              = (job'\<lparr>Status := ''failed'', Error := Some e\<rparr> # fst (start_w hs jobs),
                 snd (start_w hs jobs)))
       \<and> (h job = Panics p \<longrightarrow>
            executeJob hs job = Inl p \<and> start_w hs (job # jobs) = ([], Some p))"
  using assms by (simp add: executeJob_def split: prod.splits)

theorem executeJob_error_or_panic_witness:
  "email_handlers ''email'' = Some EmailJobHandler
   \<and> start_w email_handlers
     [\<lparr>ID = ''job-1'', Type = ''email'', Payload = VString ''hello'', CreatedAt = 0,
       Status = ''pending'', Error = None\<rparr>,
      \<lparr>ID = ''job-2'', Type = ''user_cleanup'', Payload = VNil, CreatedAt = 0,
       Status = ''pending'', Error = None\<rparr>]
    = ([\<lparr>ID = ''job-1'', Type = ''email'', Payload = VString ''hello'', CreatedAt = 0,
         Status = ''failed'', Error = Some (ErrorString ''invalid payload format'')\<rparr>,
        \<lparr>ID = ''job-2'', Type = ''user_cleanup'', Payload = VNil, CreatedAt = 0,
         Status = ''completed'', Error = None\<rparr>], None)
   \<and> start_w email_handlers
     [\<lparr>ID = ''job-1'', Type = ''email'', Payload = VMap [(''subject'', VString ''Welcome'')],
       CreatedAt = 0, Status = ''pending'', Error = None\<rparr>,
      \<lparr>ID = ''job-2'', Type = ''user_cleanup'', Payload = VNil, CreatedAt = 0,
       Status = ''pending'', Error = None\<rparr>]
    = ([], Some (HandlerPanic ''interface conversion: interface {} is nil, not string''))"
  using executeJob_error_or_panic [where hs = email_handlers and h = EmailJobHandler
      and job = "\<lparr>ID = ''job-1'', Type = ''email'', Payload = VString ''hello'', CreatedAt = 0,
       Status = ''pending'', Error = None\<rparr>"
      and job' = "\<lparr>ID = ''job-1'', Type = ''email'', Payload = VString ''hello'', CreatedAt = 0,
       Status = ''pending'', Error = None\<rparr>"
      and e = "ErrorString ''invalid payload format''"
      and jobs = "[\<lparr>ID = ''job-2'', Type = ''user_cleanup'', Payload = VNil, CreatedAt = 0,
       Status = ''pending'', Error = None\<rparr>]"]
    executeJob_error_or_panic [where hs = email_handlers and h = EmailJobHandler
      and job = "\<lparr>ID = ''job-1'', Type = ''email'', Payload = VMap [(''subject'', VString ''Welcome'')],
       CreatedAt = 0, Status = ''pending'', Error = None\<rparr>"
      and p = "HandlerPanic ''interface conversion: interface {} is nil, not string''"
      and jobs = "[\<lparr>ID = ''job-2'', Type = ''user_cleanup'', Payload = VNil, CreatedAt = 0,
       Status = ''pending'', Error = None\<rparr>]"]
  by (simp add: email_handlers_def EmailJobHandler_def UserCleanupJobHandler_def assert_string_def
        executeJob_def)

text \<open>
  Claim C4 as stated fails: an email job whose payload map has no \<^verbatim>\<open>"to"\<close> entry makes
  \<^verbatim>\<open>EmailJobHandler\<close> panic; \<^verbatim>\<open>executeJob\<close> ends with that panic instead of a failed
  job, and the worker does not get to the job behind it.
\<close>

theorem executeJob_panic_counterexample:
  "executeJob email_handlers
     \<lparr>ID = ''job-1'', Type = ''email'', Payload = VMap [(''subject'', VString ''Welcome'')],
      CreatedAt = 0, Status = ''pending'', Error = None\<rparr>
    = Inl (HandlerPanic ''interface conversion: interface {} is nil, not string'')
   \<and> start_w email_handlers
     [\<lparr>ID = ''job-1'', Type = ''email'', Payload = VMap [(''subject'', VString ''Welcome'')],
       CreatedAt = 0, Status = ''pending'', Error = None\<rparr>,
      \<lparr>ID = ''job-2'', Type = ''user_cleanup'', Payload = VNil, CreatedAt = 0,
       Status = ''pending'', Error = None\<rparr>]
    = ([], Some (HandlerPanic ''interface conversion: interface {} is nil, not string''))"
  by (simp add: email_handlers_def EmailJobHandler_def UserCleanupJobHandler_def assert_string_def
        executeJob_def)

end
